theory Spec2Isabelle
  imports Main "HOL-Library.Multiset" "HOL-Library.Product_Lexorder"
begin

section \<open>The route chord example: data model\<close>

text \<open>
  The notebook \<^verbatim>\<open>examples/gallery/demos/matplotlib/route_chord.ipynb\<close> has one cell
  with logic:
  \<^verbatim>\<open>
  route_counts = routes.groupby(['SourceID', 'DestinationID']).Stops.count().reset_index()
  nodes = hv.Dataset(airports, 'AirportID', 'City')
  chord = hv.Chord((route_counts, nodes), ['SourceID', 'DestinationID'], ['Stops'])
  busiest = list(routes.groupby('SourceID').count().sort_values('Stops').iloc[-20:].index.values)
  busiest_airports = chord.select(AirportID=busiest, selection_mode='nodes')
  \<close>
  A data frame is the list of its rows, in row order. A cell of the input frame may be
  missing (NaN in the data frame library): such a cell is \<open>None\<close>. Airport ids are of
  any linearly ordered type, since grouping sorts the group keys.
\<close>

record 'a route =
  SourceID :: "'a option"
  DestinationID :: "'a option"
  Stops :: "int option"

text \<open>A row of \<^verbatim>\<open>route_counts\<close>: after \<^verbatim>\<open>reset_index()\<close> the two group keys are
  columns again, and the column \<^verbatim>\<open>Stops\<close> holds the count.\<close>

record 'a route_count =
  rc_SourceID :: 'a
  rc_DestinationID :: 'a
  rc_Stops :: nat

text \<open>A row of \<^verbatim>\<open>routes.groupby('SourceID').count()\<close>: the index is the group key and
  every other column of the route table holds its count.\<close>

record 'a source_count =
  sc_index :: 'a
  sc_DestinationID :: nat
  sc_Stops :: nat

section \<open>The data frame operations the cell calls\<close>

text \<open>
  \<^verbatim>\<open>df.groupby(key)\<close> with the defaults: a row whose key is missing belongs to no group,
  the groups come in ascending order of their key, one group for each key value that
  occurs, and each group holds its rows in the order of the frame.
\<close>

definition groupby :: "('r \<Rightarrow> 'k::linorder option) \<Rightarrow> 'r list \<Rightarrow> ('k \<times> 'r list) list" where
  "groupby key df =
     map (\<lambda>k. (k, filter (\<lambda>r. key r = Some k) df)) (sort (remdups (List.map_filter key df)))"

text \<open>Grouping by the list of columns \<^verbatim>\<open>['SourceID', 'DestinationID']\<close>: the key is the
  pair, ordered lexicographically, and it is missing as soon as one of its parts is.\<close>

definition pair_key :: "'a route \<Rightarrow> ('a \<times> 'a) option" where
  "pair_key r =
     (case SourceID r of
        None \<Rightarrow> None
      | Some s \<Rightarrow> (case DestinationID r of None \<Rightarrow> None | Some d \<Rightarrow> Some (s, d)))"

text \<open>\<^verbatim>\<open>count()\<close> of a column over the rows of one group: the number of cells of the
  column that are not missing.\<close>

definition count_col :: "('r \<Rightarrow> 'v option) \<Rightarrow> 'r list \<Rightarrow> nat" where
  "count_col col rows = length (filter (\<lambda>r. col r \<noteq> None) rows)"

text \<open>\<^verbatim>\<open>.iloc[-n:]\<close>: the last \<open>n\<close> rows, all of them when the frame has fewer.\<close>

definition iloc_last :: "nat \<Rightarrow> 'r list \<Rightarrow> 'r list" where
  "iloc_last n df = drop (length df - n) df"

text \<open>
  \<^verbatim>\<open>df.sort_values(col)\<close> sorts the rows in ascending order of the column. Its default
  algorithm (\<^verbatim>\<open>kind='quicksort'\<close>) is not a stable one, so the order it gives to rows of
  equal count is not fixed by the call. The sorting function is therefore a parameter of
  the model, and \<open>is_sort_values\<close> is all that is known of it: the result has the rows
  of the argument, in ascending order of the column. The insertion sort \<open>sort_key\<close> is
  one such function, and a stable one.
\<close>

definition is_sort_values :: "(('r \<Rightarrow> nat) \<Rightarrow> 'r list \<Rightarrow> 'r list) \<Rightarrow> bool" where
  "is_sort_values sort_values \<longleftrightarrow>
     (\<forall>col df. mset (sort_values col df) = mset df \<and> sorted (map col (sort_values col df)))"

section \<open>The cell\<close>

text \<open>\<^verbatim>\<open>routes.groupby(['SourceID', 'DestinationID']).Stops.count().reset_index()\<close>\<close>

definition route_counts :: "'a::linorder route list \<Rightarrow> 'a route_count list" where
  "route_counts routes =
     map (\<lambda>(k, rows). \<lparr>rc_SourceID = fst k, rc_DestinationID = snd k,
                        rc_Stops = count_col Stops rows\<rparr>)
         (groupby pair_key routes)"

text \<open>\<^verbatim>\<open>routes.groupby('SourceID').count()\<close>\<close>

definition source_counts :: "'a::linorder route list \<Rightarrow> 'a source_count list" where
  "source_counts routes =
     map (\<lambda>(k, rows). \<lparr>sc_index = k, sc_DestinationID = count_col DestinationID rows,
                        sc_Stops = count_col Stops rows\<rparr>)
         (groupby SourceID routes)"

text \<open>\<^verbatim>\<open>list(routes.groupby('SourceID').count().sort_values('Stops').iloc[-20:].index.values)\<close>\<close>

definition busiest ::
  "(('a source_count \<Rightarrow> nat) \<Rightarrow> 'a source_count list \<Rightarrow> 'a source_count list) \<Rightarrow>
   'a::linorder route list \<Rightarrow> 'a list" where
  "busiest sort_values routes =
     map sc_index (iloc_last 20 (sort_values sc_Stops (source_counts routes)))"

section \<open>The cell on a frame\<close>

text \<open>
  The two statements look their columns up by name, and the data frame library raises
  an error for a name that the frame does not have: \<^verbatim>\<open>groupby\<close> and \<^verbatim>\<open>sort_values\<close>
  raise \<^verbatim>\<open>KeyError\<close>, and the attribute \<^verbatim>\<open>.Stops\<close> of the grouped frame raises
  \<^verbatim>\<open>AttributeError\<close>. The cell catches neither.
\<close>

datatype error = KeyError string | AttributeError string

text \<open>The frame that the cell receives as \<^verbatim>\<open>routes\<close>: the names of its columns, and its
  rows. When the frame lacks a column, the statement that asks for the column fails
  before it reads a cell of it.\<close>

record 'a frame =
  frame_columns :: "string list"
  frame_rows :: "'a route list"

definition has_column :: "'a frame \<Rightarrow> string \<Rightarrow> bool" where
  "has_column df name \<longleftrightarrow> name \<in> set (frame_columns df)"

text \<open>\<^verbatim>\<open>route_counts = routes.groupby(['SourceID', 'DestinationID']).Stops.count().reset_index()\<close>\<close>

definition route_counts_stmt :: "'a::linorder frame \<Rightarrow> error + 'a route_count list" where
  "route_counts_stmt df =
     (if \<not> has_column df ''SourceID'' then Inl (KeyError ''SourceID'')
      else if \<not> has_column df ''DestinationID'' then Inl (KeyError ''DestinationID'')
      else if \<not> has_column df ''Stops'' then Inl (AttributeError ''Stops'')
      else Inr (route_counts (frame_rows df)))"

text \<open>\<^verbatim>\<open>busiest = list(routes.groupby('SourceID').count().sort_values('Stops').iloc[-20:].index.values)\<close>\<close>

definition busiest_stmt ::
  "(('a source_count \<Rightarrow> nat) \<Rightarrow> 'a source_count list \<Rightarrow> 'a source_count list) \<Rightarrow>
   'a::linorder frame \<Rightarrow> error + 'a list" where
  "busiest_stmt sort_values df =
     (if \<not> has_column df ''SourceID'' then Inl (KeyError ''SourceID'')
      else if \<not> has_column df ''Stops'' then Inl (KeyError ''Stops'')
      else Inr (busiest sort_values (frame_rows df)))"

text \<open>A route table is a frame that has the three columns of a route record.\<close>

definition is_route_table :: "'a frame \<Rightarrow> bool" where
  "is_route_table df \<longleftrightarrow>
     has_column df ''SourceID'' \<and> has_column df ''DestinationID'' \<and> has_column df ''Stops''"

section \<open>Vocabulary of the properties\<close>

text \<open>The rows of the route table from \<open>s\<close> to \<open>d\<close>, and those of them that
  carry a stop count.\<close>

definition rows_between :: "'a route list \<Rightarrow> 'a \<Rightarrow> 'a \<Rightarrow> 'a route list" where
  "rows_between routes s d =
     filter (\<lambda>r. SourceID r = Some s \<and> DestinationID r = Some d) routes"

definition counted_between :: "'a route list \<Rightarrow> 'a \<Rightarrow> 'a \<Rightarrow> 'a route list" where
  "counted_between routes s d = filter (\<lambda>r. Stops r \<noteq> None) (rows_between routes s d)"

text \<open>The key of an entry of the route-count table.\<close>

definition rc_key :: "'a route_count \<Rightarrow> 'a \<times> 'a" where
  "rc_key e = (rc_SourceID e, rc_DestinationID e)"

text \<open>The pairs of ids that occur in a row of the route table.\<close>

definition pairs_of :: "'a route list \<Rightarrow> ('a \<times> 'a) set" where
  "pairs_of routes = {(s, d). \<exists>r \<in> set routes. SourceID r = Some s \<and> DestinationID r = Some d}"

text \<open>The source ids that occur in a row of the route table.\<close>

definition source_ids :: "'a route list \<Rightarrow> 'a set" where
  "source_ids routes = {s. \<exists>r \<in> set routes. SourceID r = Some s}"

text \<open>The rows of the route table that leave \<open>s\<close>; the number of them is the
  outgoing-route count of \<open>s\<close>, and \<open>out_count\<close> is the number the selection sorts by:
  the count of the column \<^verbatim>\<open>Stops\<close> in the group of \<open>s\<close>.\<close>

definition out_rows :: "'a route list \<Rightarrow> 'a \<Rightarrow> 'a route list" where
  "out_rows routes s = filter (\<lambda>r. SourceID r = Some s) routes"

definition out_count :: "'a route list \<Rightarrow> 'a \<Rightarrow> nat" where
  "out_count routes s = count_col Stops (out_rows routes s)"

text \<open>The rows that the aggregation counts: both ids and the stop count are there.\<close>

definition counted_rows :: "'a route list \<Rightarrow> 'a route list" where
  "counted_rows routes = filter (\<lambda>r. pair_key r \<noteq> None \<and> Stops r \<noteq> None) routes"

text \<open>A route table with 21 source ids: airport 0 has two routes, both without a stop
  count, and each of the airports 1 to 20 has one route.\<close>

definition hub_without_stops :: "int route list" where
  "hub_without_stops =
     \<lparr>SourceID = Some 0, DestinationID = Some 1, Stops = None\<rparr> #
     \<lparr>SourceID = Some 0, DestinationID = Some 2, Stops = None\<rparr> #
     map (\<lambda>i. \<lparr>SourceID = Some i, DestinationID = Some 0, Stops = Some 0\<rparr>) [1..20]"

text \<open>A route table with two source ids: one route leaves airport 1 and two leave
  airport 2; no cell is missing.\<close>

definition three_routes :: "int route list" where
  "three_routes =
     [\<lparr>SourceID = Some 1, DestinationID = Some 2, Stops = Some 0\<rparr>,
      \<lparr>SourceID = Some 2, DestinationID = Some 1, Stops = Some 0\<rparr>,
      \<lparr>SourceID = Some 2, DestinationID = Some 3, Stops = Some 0\<rparr>]"

text \<open>A route table with two source ids of one route each.\<close>

definition tied_routes :: "int route list" where
  "tied_routes =
     [\<lparr>SourceID = Some 1, DestinationID = Some 2, Stops = Some 0\<rparr>,
      \<lparr>SourceID = Some 2, DestinationID = Some 1, Stops = Some 0\<rparr>]"

text \<open>A sort that is not stable: the insertion sort of the frame read from its last row
  to its first. It gives the rows in ascending order of the column, and rows of equal
  value in the reverse of their order in the frame.\<close>

definition reverse_ties :: "('r \<Rightarrow> nat) \<Rightarrow> 'r list \<Rightarrow> 'r list" where
  "reverse_ties col df = sort_key col (rev df)"

section \<open>The chord structure and its selection\<close>

text \<open>\<^verbatim>\<open>nodes = hv.Dataset(airports, 'AirportID', 'City')\<close>: a node is an airport, with
  its id as the key and its city as the value.\<close>

record 'a airport =
  AirportID :: 'a
  City :: string

text \<open>
  Modelled from the spec: the class of \<^verbatim>\<open>hv.Chord((route_counts, nodes), ...)\<close> belongs
  to the plotting library and is not among the sources. The specification speaks of the
  node set and the edge set of the chord structure: its edges are rows of the route-count
  table and its nodes are airports.
\<close>

record 'a chord =
  edges :: "'a route_count list"
  nodes :: "'a airport list"

datatype selection_mode = mode_nodes | mode_edges

text \<open>
  Modelled from the spec: the method \<^verbatim>\<open>select\<close> of the chord structure belongs to the
  plotting library (\<^verbatim>\<open>holoviews/element/graphs.py\<close>) and is not among the sources. The
  specification says of it: filtering the full node/edge set by the busiest-airport list
  yields a subset containing only nodes whose id is in that list and only edges where the
  node-selection policy includes both (or either, depending on selection mode) endpoints.
\<close>

definition endpoints_selected :: "selection_mode \<Rightarrow> 'a list \<Rightarrow> 'a route_count \<Rightarrow> bool" where
  "endpoints_selected selection_mode ids e =
     (case selection_mode of
        mode_nodes \<Rightarrow> rc_SourceID e \<in> set ids \<and> rc_DestinationID e \<in> set ids
      | mode_edges \<Rightarrow> rc_SourceID e \<in> set ids \<or> rc_DestinationID e \<in> set ids)"

definition select :: "'a chord \<Rightarrow> 'a list \<Rightarrow> selection_mode \<Rightarrow> 'a chord" where
  "select g ids selection_mode =
     \<lparr>edges = filter (endpoints_selected selection_mode ids) (edges g),
      nodes = filter (\<lambda>n. AirportID n \<in> set ids) (nodes g)\<rparr>"

section \<open>Grouping\<close>

lemma set_map_filter: "set (List.map_filter f xs) = {y. \<exists>x \<in> set xs. f x = Some y}"
  by (induction xs) (auto split: option.splits)

lemma groupby_keys: "map fst (groupby key df) = sort (remdups (List.map_filter key df))"
  by (simp add: groupby_def comp_def)

lemma distinct_groupby_keys: "distinct (map fst (groupby key df))"
  by (simp add: groupby_keys)

lemma sorted_groupby_keys: "sorted (map fst (groupby key df))"
  by (simp add: groupby_keys)

lemma set_groupby_keys: "set (map fst (groupby key df)) = {k. \<exists>r \<in> set df. key r = Some k}"
  by (simp add: groupby_keys set_map_filter)

lemma groupby_rows: "(k, rows) \<in> set (groupby key df) \<Longrightarrow> rows = filter (\<lambda>r. key r = Some k) df"
  by (auto simp: groupby_def)

lemma groupby_no_keys: "\<forall>r \<in> set df. key r = None \<Longrightarrow> groupby key df = []"
proof -
  assume "\<forall>r \<in> set df. key r = None"
  then have "List.map_filter key df = []"
    by (induction df) auto
  then show ?thesis by (simp add: groupby_def)
qed

lemma map_filter_present: "List.map_filter key (filter (\<lambda>r. key r \<noteq> None) df) = List.map_filter key df"
  by (induction df) (auto split: option.splits)

lemma groupby_present: "groupby key (filter (\<lambda>r. key r \<noteq> None) df) = groupby key df"
proof -
  have "filter (\<lambda>r. key r = Some k) (filter (\<lambda>r. key r \<noteq> None) df)
          = filter (\<lambda>r. key r = Some k) df" for k
    by (simp, rule filter_cong) auto
  then show ?thesis
    unfolding groupby_def by (simp only: map_filter_present)
qed

lemma pair_key_Some: "pair_key r = Some (s, d) \<longleftrightarrow> SourceID r = Some s \<and> DestinationID r = Some d"
  by (auto simp: pair_key_def split: option.splits)

section \<open>The route-count table\<close>

lemma route_counts_keys: "map rc_key (route_counts routes) = map fst (groupby pair_key routes)"
  by (simp add: route_counts_def rc_key_def comp_def case_prod_unfold)

lemma route_counts_Stops:
  assumes "e \<in> set (route_counts routes)"
  shows "rc_Stops e = length (counted_between routes (rc_SourceID e) (rc_DestinationID e))"
proof -
  from assms obtain k rows where kr: "(k, rows) \<in> set (groupby pair_key routes)"
    and e: "e = \<lparr>rc_SourceID = fst k, rc_DestinationID = snd k, rc_Stops = count_col Stops rows\<rparr>"
    by (auto simp: route_counts_def)
  have "rows = filter (\<lambda>r. pair_key r = Some k) routes"
    using kr by (rule groupby_rows)
  also have "\<dots> = rows_between routes (fst k) (snd k)"
    unfolding rows_between_def by (cases k) (simp add: pair_key_Some)
  finally show ?thesis
    by (simp add: e count_col_def counted_between_def)
qed

lemma counted_between_all:
  "\<forall>r \<in> set routes. Stops r \<noteq> None \<Longrightarrow> counted_between routes s d = rows_between routes s d"
  unfolding counted_between_def rows_between_def
  by (simp add: conj_commute) (rule filter_cong, auto)

text \<open>
  What the aggregation computes: the route-count table has exactly one entry for each
  pair (source id, destination id) that occurs in a row of the route table, and the
  count of an entry is the number of rows of its pair that carry a stop count. On a
  table where no row lacks its stop count this is the number of the rows of the pair.
\<close>

lemma route_counts_entries:
  "distinct (map rc_key (route_counts routes)) \<and>
   set (map rc_key (route_counts routes)) = pairs_of routes \<and>
   (\<forall>e \<in> set (route_counts routes).
      rc_Stops e = length (counted_between routes (rc_SourceID e) (rc_DestinationID e))) \<and>
   ((\<forall>r \<in> set routes. Stops r \<noteq> None) \<longrightarrow>
    (\<forall>e \<in> set (route_counts routes).
      rc_Stops e = length (rows_between routes (rc_SourceID e) (rc_DestinationID e))))"
proof (intro conjI impI ballI)
  show "distinct (map rc_key (route_counts routes))"
    by (simp only: route_counts_keys distinct_groupby_keys)
  show "set (map rc_key (route_counts routes)) = pairs_of routes"
    by (auto simp: route_counts_keys set_groupby_keys pairs_of_def pair_key_Some simp del: set_map)
next
  fix e assume "e \<in> set (route_counts routes)"
  then show "rc_Stops e = length (counted_between routes (rc_SourceID e) (rc_DestinationID e))"
    by (rule route_counts_Stops)
next
  fix e assume "\<forall>r \<in> set routes. Stops r \<noteq> None" and "e \<in> set (route_counts routes)"
  then show "rc_Stops e = length (rows_between routes (rc_SourceID e) (rc_DestinationID e))"
    by (simp add: route_counts_Stops counted_between_all)
qed

text \<open>
  Claim C1: the route-count table has one entry for each pair that occurs, and the count
  of the entry is the number of route rows of the pair. The aggregation departs from the
  claim on a route whose stop count is missing: for the table of the one route from 1 to
  2, without a stop count, the entry of the pair holds the count 0, and one row of the
  table has that source and that destination. The statement counts the cells of the
  column \<^verbatim>\<open>Stops\<close>, where the comment above it says that it counts the routes.
\<close>

theorem route_counts_missing_stops:
  "route_counts [\<lparr>SourceID = Some (1::int), DestinationID = Some 2, Stops = None\<rparr>]
     = [\<lparr>rc_SourceID = 1, rc_DestinationID = 2, rc_Stops = 0\<rparr>] \<and>
   length (rows_between [\<lparr>SourceID = Some (1::int), DestinationID = Some 2, Stops = None\<rparr>] 1 2) = 1"
  by (simp add: route_counts_def groupby_def pair_key_def count_col_def rows_between_def)

lemma length_filter_disjoint:
  "\<forall>x \<in> set xs. \<not> (P x \<and> Q x) \<Longrightarrow>
   length (filter P xs) + length (filter Q xs) = length (filter (\<lambda>x. P x \<or> Q x) xs)"
  by (induction xs) auto

lemma sum_group_counts:
  "distinct ks \<Longrightarrow>
   sum_list (map (\<lambda>k. length (filter P (filter (\<lambda>r. key r = Some k) df))) ks)
     = length (filter (\<lambda>r. (\<exists>k \<in> set ks. key r = Some k) \<and> P r) df)"
proof (induction ks)
  case Nil
  then show ?case by simp
next
  case (Cons k ks)
  have "length (filter (\<lambda>r. key r = Some k \<and> P r) df)
          + length (filter (\<lambda>r. (\<exists>k \<in> set ks. key r = Some k) \<and> P r) df)
        = length (filter (\<lambda>r. (key r = Some k \<and> P r) \<or> ((\<exists>k \<in> set ks. key r = Some k) \<and> P r)) df)"
    using Cons.prems by (intro length_filter_disjoint) auto
  also have "\<dots> = length (filter (\<lambda>r. (\<exists>k' \<in> set (k # ks). key r = Some k') \<and> P r) df)"
    by (rule arg_cong [where f = length], rule filter_cong) auto
  finally show ?case using Cons by (simp add: conj_commute)
qed

lemma counted_rows_all:
  "\<forall>r \<in> set routes. SourceID r \<noteq> None \<and> DestinationID r \<noteq> None \<and> Stops r \<noteq> None \<Longrightarrow>
   counted_rows routes = routes"
  unfolding counted_rows_def
  by (rule filter_True) (auto simp: pair_key_def)

text \<open>
  Claim C10: the counts of the route-count table add up to the number of rows that the
  aggregation counts, the rows with both ids and a stop count: no row is counted twice
  and none is invented. When no cell of the table is missing, the counts add up to the
  number of rows of the table.
\<close>

theorem route_counts_total:
  "sum_list (map rc_Stops (route_counts routes)) = length (counted_rows routes) \<and>
   ((\<forall>r \<in> set routes. SourceID r \<noteq> None \<and> DestinationID r \<noteq> None \<and> Stops r \<noteq> None) \<longrightarrow>
    sum_list (map rc_Stops (route_counts routes)) = length routes)"
proof -
  let ?ks = "map fst (groupby pair_key routes)"
  have "map rc_Stops (route_counts routes)
          = map (\<lambda>k. length (filter (\<lambda>r. Stops r \<noteq> None) (filter (\<lambda>r. pair_key r = Some k) routes))) ?ks"
    by (simp add: route_counts_def groupby_def count_col_def comp_def)
  then have "sum_list (map rc_Stops (route_counts routes))
          = length (filter (\<lambda>r. (\<exists>k \<in> set ?ks. pair_key r = Some k) \<and> Stops r \<noteq> None) routes)"
    using sum_group_counts [where ks = "?ks" and key = pair_key and df = routes
        and P = "\<lambda>r. Stops r \<noteq> None", OF distinct_groupby_keys]
    by simp
  also have "\<dots> = length (counted_rows routes)"
    unfolding counted_rows_def
    by (rule arg_cong [where f = length], rule filter_cong) (auto simp: set_groupby_keys simp del: set_map)
  finally have total: "sum_list (map rc_Stops (route_counts routes)) = length (counted_rows routes)" .
  then show ?thesis
    using counted_rows_all [of routes] by simp
qed

text \<open>The theorem at the table of three routes, where no cell is missing, and at a
  table of three rows of which one lacks its stop count and one its destination.\<close>

theorem route_counts_total_witness:
  "SourceID (three_routes ! 0) \<noteq> None \<and> DestinationID (three_routes ! 0) \<noteq> None \<and>
   Stops (three_routes ! 0) \<noteq> None \<and>
   sum_list (map rc_Stops (route_counts three_routes)) = 3 \<and>
   length three_routes = 3 \<and>
   sum_list (map rc_Stops (route_counts
     [\<lparr>SourceID = Some (1::int), DestinationID = Some 2, Stops = Some 0\<rparr>,
      \<lparr>SourceID = Some 1, DestinationID = Some 2, Stops = None\<rparr>,
      \<lparr>SourceID = Some 1, DestinationID = None, Stops = Some 0\<rparr>])) = 1"
proof -
  let ?t = "[\<lparr>SourceID = Some (1::int), DestinationID = Some 2, Stops = Some 0\<rparr>,
             \<lparr>SourceID = Some 1, DestinationID = Some 2, Stops = None\<rparr>,
             \<lparr>SourceID = Some 1, DestinationID = None, Stops = Some 0\<rparr>]"
  have full: "\<forall>r \<in> set three_routes.
                SourceID r \<noteq> None \<and> DestinationID r \<noteq> None \<and> Stops r \<noteq> None"
    by (simp add: three_routes_def)
  have len: "length three_routes = 3"
    by (simp add: three_routes_def)
  from route_counts_total [of three_routes] full
  have "sum_list (map rc_Stops (route_counts three_routes)) = length three_routes"
    by blast
  moreover from route_counts_total [of ?t]
  have "sum_list (map rc_Stops (route_counts ?t)) = length (counted_rows ?t)"
    by blast
  moreover have "length (counted_rows ?t) = 1"
    by (simp add: counted_rows_def pair_key_def)
  ultimately show ?thesis using len by (simp add: three_routes_def)
qed

section \<open>The sorted frame\<close>

lemma sort_key_is_sort_values: "is_sort_values sort_key"
  by (simp add: is_sort_values_def)

lemma sort_values_set: "is_sort_values srt \<Longrightarrow> set (srt col df) = set df"
  by (metis is_sort_values_def mset_eq_setD)

lemma sort_values_length: "is_sort_values srt \<Longrightarrow> length (srt col df) = length df"
  by (metis is_sort_values_def mset_eq_length)

lemma sort_values_sorted: "is_sort_values srt \<Longrightarrow> sorted (map col (srt col df))"
  by (simp add: is_sort_values_def)

lemma sort_values_distinct:
  assumes "is_sort_values srt" and "distinct (map f df)"
  shows "distinct (map f (srt col df))"
proof -
  have "mset (map f (srt col df)) = mset (map f df)"
    using assms(1) by (simp add: is_sort_values_def)
  then show ?thesis using assms(2) by (metis mset_eq_imp_distinct_iff)
qed

lemma length_iloc_last: "length (iloc_last n df) = min n (length df)"
  by (simp add: iloc_last_def)

lemma set_iloc_last: "set (iloc_last n df) \<subseteq> set df"
  by (simp add: iloc_last_def set_drop_subset)

lemma iloc_last_all: "length df \<le> n \<Longrightarrow> iloc_last n df = df"
  by (simp add: iloc_last_def)

section \<open>The counts by source\<close>

lemma source_counts_index: "map sc_index (source_counts routes) = map fst (groupby SourceID routes)"
  by (simp add: source_counts_def comp_def case_prod_unfold)

lemma distinct_source_counts: "distinct (map sc_index (source_counts routes))"
  by (simp add: source_counts_index distinct_groupby_keys)

lemma set_source_counts: "sc_index ` set (source_counts routes) = source_ids routes"
  using set_groupby_keys [of SourceID routes]
  by (simp add: source_counts_index source_ids_def flip: set_map)

lemma length_source_counts: "length (source_counts routes) = card (source_ids routes)"
proof -
  have "card (source_ids routes) = card (set (map sc_index (source_counts routes)))"
    by (simp add: set_source_counts)
  also have "\<dots> = length (map sc_index (source_counts routes))"
    by (rule distinct_card) (rule distinct_source_counts)
  finally show ?thesis by simp
qed

lemma source_counts_Stops:
  assumes "row \<in> set (source_counts routes)"
  shows "sc_Stops row = out_count routes (sc_index row)"
proof -
  from assms obtain k rows where kr: "(k, rows) \<in> set (groupby SourceID routes)"
    and row: "row = \<lparr>sc_index = k, sc_DestinationID = count_col DestinationID rows,
                      sc_Stops = count_col Stops rows\<rparr>"
    by (auto simp: source_counts_def)
  from kr have "rows = out_rows routes k"
    unfolding out_rows_def by (rule groupby_rows)
  then show ?thesis by (simp add: row out_count_def)
qed

lemma out_count_outside: "s \<notin> source_ids routes \<Longrightarrow> out_count routes s = 0"
  by (auto simp: out_count_def out_rows_def count_col_def source_ids_def filter_empty_conv)

section \<open>The busiest list\<close>

lemma length_busiest:
  "is_sort_values srt \<Longrightarrow> length (busiest srt routes) = min 20 (card (source_ids routes))"
  by (simp add: busiest_def length_iloc_last sort_values_length length_source_counts)

lemma distinct_busiest:
  assumes "is_sort_values srt"
  shows "distinct (busiest srt routes)"
proof -
  let ?xs = "srt sc_Stops (source_counts routes)"
  have "distinct (map sc_index ?xs)"
    using assms distinct_source_counts by (rule sort_values_distinct)
  then have "distinct (drop (length ?xs - 20) (map sc_index ?xs))"
    by (rule distinct_drop)
  then show ?thesis by (simp add: busiest_def iloc_last_def drop_map)
qed

lemma busiest_rows:
  assumes "is_sort_values srt"
  shows "set (iloc_last 20 (srt sc_Stops (source_counts routes))) \<subseteq> set (source_counts routes)"
  using set_iloc_last [of 20 "srt sc_Stops (source_counts routes)"] sort_values_set [OF assms]
  by simp

lemma set_busiest:
  assumes "is_sort_values srt"
  shows "set (busiest srt routes) \<subseteq> source_ids routes"
proof -
  have "sc_index ` set (iloc_last 20 (srt sc_Stops (source_counts routes)))
          \<subseteq> sc_index ` set (source_counts routes)"
    using busiest_rows [OF assms] by (rule image_mono)
  then show ?thesis by (simp add: busiest_def set_source_counts)
qed

lemma busiest_counts:
  assumes "is_sort_values srt"
  shows "map (out_count routes) (busiest srt routes)
           = map sc_Stops (iloc_last 20 (srt sc_Stops (source_counts routes)))"
  using busiest_rows [OF assms] source_counts_Stops
  by (fastforce simp: busiest_def)

lemma sorted_busiest:
  assumes "is_sort_values srt"
  shows "sorted (map (out_count routes) (busiest srt routes))"
proof -
  let ?xs = "srt sc_Stops (source_counts routes)"
  have "map sc_Stops (iloc_last 20 ?xs) = drop (length ?xs - 20) (map sc_Stops ?xs)"
    by (simp add: iloc_last_def drop_map)
  then show ?thesis
    using sort_values_sorted [OF assms, of sc_Stops "source_counts routes"]
    by (simp add: busiest_counts [OF assms] sorted_wrt_drop)
qed

lemma busiest_all:
  assumes "is_sort_values srt" and "card (source_ids routes) \<le> 20"
  shows "set (busiest srt routes) = source_ids routes"
proof -
  have "length (srt sc_Stops (source_counts routes)) \<le> 20"
    using assms by (simp add: sort_values_length length_source_counts)
  then have "busiest srt routes = map sc_index (srt sc_Stops (source_counts routes))"
    by (simp add: busiest_def iloc_last_all)
  then show ?thesis
    using sort_values_set [OF assms(1)] by (simp add: set_source_counts)
qed

lemma busiest_dominates:
  assumes srt: "is_sort_values srt"
    and a: "a \<in> set (busiest srt routes)" and b: "b \<notin> set (busiest srt routes)"
  shows "out_count routes b \<le> out_count routes a"
proof (cases "b \<in> source_ids routes")
  case False
  then show ?thesis by (simp add: out_count_outside)
next
  case True
  let ?xs = "srt sc_Stops (source_counts routes)"
  let ?k = "length ?xs - 20"
  from a obtain ra where ra: "ra \<in> set (drop ?k ?xs)" and ia: "sc_index ra = a"
    by (auto simp: busiest_def iloc_last_def)
  from True obtain rb where rb: "rb \<in> set ?xs" and ib: "sc_index rb = b"
    using set_source_counts [of routes] sort_values_set [OF srt, of sc_Stops "source_counts routes"]
    by (metis imageE)
  have "rb \<notin> set (drop ?k ?xs)"
    using b ib by (auto simp: busiest_def iloc_last_def)
  with rb have rb': "rb \<in> set (take ?k ?xs)"
    by (metis Un_iff append_take_drop_id set_append)
  have "sorted (map sc_Stops (take ?k ?xs) @ map sc_Stops (drop ?k ?xs))"
    using sort_values_sorted [OF srt, of sc_Stops "source_counts routes"]
    by (simp flip: map_append)
  then have "sc_Stops rb \<le> sc_Stops ra"
    using ra rb' by (auto simp: sorted_append)
  moreover have "ra \<in> set (source_counts routes)"
    using ra sort_values_set [OF srt, of sc_Stops "source_counts routes"] by (auto dest: in_set_dropD)
  moreover have "rb \<in> set (source_counts routes)"
    using rb sort_values_set [OF srt, of sc_Stops "source_counts routes"] by simp
  ultimately show ?thesis
    using ia ib by (metis source_counts_Stops)
qed

text \<open>The insertion sort is stable: it leaves rows of equal count in the order of the
  grouping, which is the ascending order of the source ids.\<close>

lemma insort_key_lex:
  assumes "\<forall>y \<in> set ys. g x \<le> g y" and "sorted (map (\<lambda>y. (f y, g y)) ys)"
  shows "sorted (map (\<lambda>y. (f y, g y)) (insort_key f x ys))"
  using assms
proof (induction ys)
  case Nil
  then show ?case by simp
next
  case (Cons y ys)
  show ?case
  proof (cases "f x \<le> f y")
    case True
    then have "\<forall>z \<in> set (y # ys). (f x, g x) \<le> (f z, g z)"
      using Cons.prems by (fastforce simp: less_eq_prod_def)
    then show ?thesis using True Cons.prems by simp
  next
    case False
    then have "(f y, g y) \<le> (f x, g x)" by (auto simp: less_eq_prod_def)
    then show ?thesis using False Cons by (auto simp: set_insort_key)
  qed
qed

lemma sort_key_lex:
  "sorted (map g xs) \<Longrightarrow> sorted (map (\<lambda>y. (f y, g y)) (sort_key f xs))"
  by (induction xs) (auto intro: insort_key_lex)

lemma stable_busiest:
  "sorted (map (\<lambda>a. (out_count routes a, a)) (busiest sort_key routes))"
proof -
  let ?xs = "sort_key sc_Stops (source_counts routes)"
  have "sorted (map sc_index (source_counts routes))"
    by (simp add: source_counts_index sorted_groupby_keys)
  then have "sorted (map (\<lambda>y. (sc_Stops y, sc_index y)) ?xs)"
    by (rule sort_key_lex)
  then have "sorted (drop (length ?xs - 20) (map (\<lambda>y. (sc_Stops y, sc_index y)) ?xs))"
    by (rule sorted_wrt_drop)
  moreover have "map (\<lambda>a. (out_count routes a, a)) (busiest sort_key routes)
      = map (\<lambda>y. (sc_Stops y, sc_index y)) (iloc_last 20 ?xs)"
    using busiest_rows [OF sort_key_is_sort_values, of routes] source_counts_Stops
    by (fastforce simp: busiest_def)
  ultimately show ?thesis by (simp add: iloc_last_def drop_map)
qed

lemma sort_values_Nil: "is_sort_values srt \<Longrightarrow> srt col [] = []"
  using sort_values_length [of srt col "[]"] by simp

lemma out_count_all:
  "\<forall>r \<in> set routes. Stops r \<noteq> None \<Longrightarrow> out_count routes s = length (out_rows routes s)"
  unfolding out_count_def count_col_def out_rows_def
  by (simp add: conj_commute) (rule arg_cong [where f = length], rule filter_cong, auto)

text \<open>The two example tables under every sort: their busiest lists do not depend on
  the order that the sort gives to rows of equal count.\<close>

lemma source_ids_three_routes: "source_ids three_routes = {1, 2}"
  by (auto simp: source_ids_def three_routes_def)

lemma busiest_three_routes:
  assumes "is_sort_values srt"
  shows "busiest srt three_routes = [1, 2]"
proof -
  let ?xs = "busiest srt three_routes"
  have set: "set ?xs = {1, 2}"
    using busiest_all [OF assms, of three_routes] by (simp add: source_ids_three_routes)
  have len: "length ?xs = 2"
    using length_busiest [OF assms, of three_routes] by (simp add: source_ids_three_routes)
  then obtain a b where xs: "?xs = [a, b]"
    by (auto simp: length_Suc_conv numeral_2_eq_2)
  have counts: "out_count three_routes 1 = 1" "out_count three_routes 2 = 2"
    by code_simp+
  have "sorted (map (out_count three_routes) ?xs)"
    using assms by (rule sorted_busiest)
  then have "out_count three_routes a \<le> out_count three_routes b"
    by (simp add: xs)
  moreover from set have "(a = 1 \<and> b = 2) \<or> (a = 2 \<and> b = 1)"
    unfolding xs by (auto simp: doubleton_eq_iff)
  ultimately show ?thesis
    using counts by (auto simp: xs)
qed

lemma hub_length: "length (source_counts hub_without_stops) = 21"
  by code_simp

lemma hub_counts:
  "\<forall>row \<in> set (source_counts hub_without_stops). sc_index row \<noteq> 0 \<longrightarrow> sc_Stops row = 1"
  by code_simp

lemma hub_zero: "out_count hub_without_stops 0 = 0"
  by code_simp

lemma busiest_hub:
  assumes "is_sort_values srt"
  shows "0 \<notin> set (busiest srt hub_without_stops)"
proof
  let ?xs = "busiest srt hub_without_stops"
  assume zero: "0 \<in> set ?xs"
  have card: "card (source_ids hub_without_stops) = 21"
    by (simp only: hub_length flip: length_source_counts)
  then have "length ?xs = 20"
    using length_busiest [OF assms, of hub_without_stops] by simp
  then have less: "card (set ?xs) < card (source_ids hub_without_stops)"
    using card card_length [of ?xs] by simp
  have "\<not> source_ids hub_without_stops \<subseteq> set ?xs"
  proof
    assume "source_ids hub_without_stops \<subseteq> set ?xs"
    then have "card (source_ids hub_without_stops) \<le> card (set ?xs)"
      by (intro card_mono) simp_all
    with less show False by simp
  qed
  then obtain b where b: "b \<in> source_ids hub_without_stops" "b \<notin> set ?xs"
    by blast
  then have "b \<noteq> 0" using zero by blast
  from b(1) have "b \<in> sc_index ` set (source_counts hub_without_stops)"
    by (simp only: set_source_counts)
  then obtain row where row: "row \<in> set (source_counts hub_without_stops)" "sc_index row = b"
    by (auto elim: imageE)
  have "sc_index row \<noteq> 0 \<longrightarrow> sc_Stops row = 1"
    using hub_counts row(1) by (rule bspec)
  then have "sc_Stops row = 1"
    using row(2) \<open>b \<noteq> 0\<close> by simp
  then have "out_count hub_without_stops b = 1"
    using source_counts_Stops [OF row(1)] row(2) by simp
  moreover have "out_count hub_without_stops b \<le> out_count hub_without_stops 0"
    using assms zero b(2) by (rule busiest_dominates)
  ultimately show False by (simp add: hub_zero)
qed

text \<open>
  What the selection computes: the busiest list holds the 20 source ids of the highest
  count, all the source ids when there are at most 20, where the count of a source id is
  the number of its rows that carry a stop count: every id of the list has a count
  greater than or equal to the count of every id outside the list. On a table where no
  row lacks its stop count this is the number of the rows of the source id.
\<close>

lemma busiest_top:
  "is_sort_values srt \<Longrightarrow>
   length (busiest srt routes) = min 20 (card (source_ids routes)) \<and>
   distinct (busiest srt routes) \<and>
   set (busiest srt routes) \<subseteq> source_ids routes \<and>
   (card (source_ids routes) \<le> 20 \<longrightarrow> set (busiest srt routes) = source_ids routes) \<and>
   (\<forall>a \<in> set (busiest srt routes). \<forall>b. b \<notin> set (busiest srt routes) \<longrightarrow>
      out_count routes b \<le> out_count routes a) \<and>
   ((\<forall>r \<in> set routes. Stops r \<noteq> None) \<longrightarrow>
    (\<forall>a \<in> set (busiest srt routes). \<forall>b. b \<notin> set (busiest srt routes) \<longrightarrow>
      length (out_rows routes b) \<le> length (out_rows routes a)))"
proof (intro conjI impI ballI allI)
  assume srt: "is_sort_values srt"
  show "length (busiest srt routes) = min 20 (card (source_ids routes))"
    using srt by (rule length_busiest)
  show "distinct (busiest srt routes)"
    using srt by (rule distinct_busiest)
  show "set (busiest srt routes) \<subseteq> source_ids routes"
    using srt by (rule set_busiest)
  show "set (busiest srt routes) = source_ids routes" if "card (source_ids routes) \<le> 20"
    using srt that by (rule busiest_all)
  show "out_count routes b \<le> out_count routes a"
    if "a \<in> set (busiest srt routes)" and "b \<notin> set (busiest srt routes)" for a b
    using srt that by (rule busiest_dominates)
  show "length (out_rows routes b) \<le> length (out_rows routes a)"
    if "\<forall>r \<in> set routes. Stops r \<noteq> None"
      and "a \<in> set (busiest srt routes)" and "b \<notin> set (busiest srt routes)" for a b
    using busiest_dominates [OF srt that(2,3)] by (simp add: out_count_all [OF that(1)])
qed

text \<open>
  Claim C2: the busiest list holds the 20 source ids of the highest number of rows, so
  that every id of the list has at least as many rows as every id outside it. The
  selection departs from the claim on routes whose stop count is missing: on the table of
  21 source ids, airport 0 has two rows and is not in the list, and airport 1 has one row
  and is in the list. The list is the one of the insertion sort; by \<open>busiest_hub\<close>
  every sort leaves airport 0 out. The statement sorts by the count of the cells of the
  column \<^verbatim>\<open>Stops\<close>, where the comment above it selects the busiest airports.
\<close>

theorem busiest_ignores_missing_stops:
  "busiest sort_key hub_without_stops
     = [1, 2, 3, 4, 5, 6, 7, 8, 9, 10, 11, 12, 13, 14, 15, 16, 17, 18, 19, 20] \<and>
   length (out_rows hub_without_stops 0) = 2 \<and>
   length (out_rows hub_without_stops 1) = 1"
  by code_simp

lemma reverse_ties_is_sort_values: "is_sort_values reverse_ties"
  by (simp add: is_sort_values_def reverse_ties_def)

text \<open>
  Claim C3, as the code has it: on a route table where no row lacks its stop count, the
  busiest list is in ascending order of the outgoing-route count, since the frame is
  sorted in ascending order and the list is its last 20 rows. Nothing is said of the
  order of source ids of equal count.
\<close>

theorem busiest_ascending:
  "is_sort_values srt \<Longrightarrow> \<forall>r \<in> set routes. Stops r \<noteq> None \<Longrightarrow>
   sorted (map (\<lambda>a. length (out_rows routes a)) (busiest srt routes))"
proof -
  assume srt: "is_sort_values srt" and stops: "\<forall>r \<in> set routes. Stops r \<noteq> None"
  have "map (\<lambda>a. length (out_rows routes a)) (busiest srt routes)
          = map (out_count routes) (busiest srt routes)"
    by (rule map_cong) (simp_all add: out_count_all [OF stops])
  then show ?thesis by (simp only: sorted_busiest [OF srt])
qed

text \<open>
  The theorem at the table of two source ids, with the insertion sort: the numbers of
  routes along the list are 1 and 2.
\<close>

theorem busiest_ascending_witness:
  "is_sort_values (sort_key :: (int source_count \<Rightarrow> nat) \<Rightarrow> _) \<and>
   Stops (three_routes ! 0) \<noteq> None \<and> Stops (three_routes ! 1) \<noteq> None \<and>
   Stops (three_routes ! 2) \<noteq> None \<and> length three_routes = 3 \<and>
   map (\<lambda>a. length (out_rows three_routes a)) (busiest sort_key three_routes) = [1, 2] \<and>
   sorted (map (\<lambda>a. length (out_rows three_routes a)) (busiest sort_key three_routes))"
proof -
  have stops: "\<forall>r \<in> set three_routes. Stops r \<noteq> None"
    by (simp add: three_routes_def)
  have cells: "Stops (three_routes ! 0) \<noteq> None \<and> Stops (three_routes ! 1) \<noteq> None \<and>
               Stops (three_routes ! 2) \<noteq> None \<and> length three_routes = 3"
    by (simp add: three_routes_def)
  have list: "map (\<lambda>a. length (out_rows three_routes a)) (busiest sort_key three_routes) = [1, 2]"
    by code_simp
  have "sorted (map (\<lambda>a. length (out_rows three_routes a)) (busiest sort_key three_routes))"
    using sort_key_is_sort_values stops by (rule busiest_ascending)
  with cells list show ?thesis using sort_key_is_sort_values by blast
qed

text \<open>
  Claim C3 as the specification words it fails twice. With the descending order it fails
  on the table of two source ids: the list is airport 1, of one route, before airport 2,
  of two routes, and by \<open>busiest_three_routes\<close> every sort gives this list. With
  the ties in the order of the grouping it fails for a sort that is not stable: on the
  table of two source ids of one route each the grouping gives airport 1 before airport
  2, and the list has airport 2 before airport 1.
\<close>

theorem busiest_not_descending:
  "busiest sort_key three_routes = [1, 2] \<and>
   length (out_rows three_routes 1) = 1 \<and> length (out_rows three_routes 2) = 2 \<and>
   \<not> sorted (rev (map (\<lambda>a. length (out_rows three_routes a)) (busiest sort_key three_routes))) \<and>
   is_sort_values (reverse_ties :: (int source_count \<Rightarrow> nat) \<Rightarrow> _) \<and>
   map sc_index (source_counts tied_routes) = [1, 2] \<and>
   length (out_rows tied_routes 1) = 1 \<and> length (out_rows tied_routes 2) = 1 \<and>
   busiest reverse_ties tied_routes = [2, 1]"
proof -
  have "busiest sort_key three_routes = [1, 2] \<and>
   length (out_rows three_routes 1) = 1 \<and> length (out_rows three_routes 2) = 2 \<and>
   \<not> sorted (rev (map (\<lambda>a. length (out_rows three_routes a)) (busiest sort_key three_routes)))"
    by code_simp
  moreover have "map sc_index (source_counts tied_routes) = [1, 2] \<and>
   length (out_rows tied_routes 1) = 1 \<and> length (out_rows tied_routes 2) = 1 \<and>
   busiest reverse_ties tied_routes = [2, 1]"
    by code_simp
  ultimately show ?thesis using reverse_ties_is_sort_values by blast
qed

text \<open>
  Claim C4: the length of the busiest list is the minimum of 20 and the number of
  distinct source ids that occur in the route table.
\<close>

theorem busiest_length:
  "is_sort_values srt \<Longrightarrow> length (busiest srt routes) = min 20 (card (source_ids routes))"
  by (rule length_busiest)

text \<open>
  The theorem at the table of 21 source ids, where the list has 20 ids, and at the
  table of two source ids, where it has two.
\<close>

theorem busiest_length_witness:
  "is_sort_values (sort_key :: (int source_count \<Rightarrow> nat) \<Rightarrow> _) \<and>
   length (busiest sort_key hub_without_stops) = 20 \<and>
   min 20 (card (source_ids hub_without_stops)) = 20 \<and>
   length (busiest sort_key three_routes) = 2 \<and>
   min 20 (card (source_ids three_routes)) = 2"
proof -
  have hub: "length (busiest sort_key hub_without_stops) = 20"
    by code_simp
  have small: "length (busiest sort_key three_routes) = 2"
    by code_simp
  from hub have "min 20 (card (source_ids hub_without_stops)) = 20"
    by (simp only: busiest_length [OF sort_key_is_sort_values, of hub_without_stops])
  moreover from small have "min 20 (card (source_ids three_routes)) = 2"
    by (simp only: busiest_length [OF sort_key_is_sort_values, of three_routes])
  ultimately show ?thesis using hub small sort_key_is_sort_values by blast
qed

text \<open>
  Claim C8: the busiest list has no id twice, and each of its ids is the source id of
  a row of the route table.
\<close>

theorem busiest_distinct_sources:
  "is_sort_values srt \<Longrightarrow>
   distinct (busiest srt routes) \<and>
   (\<forall>a \<in> set (busiest srt routes). \<exists>r \<in> set routes. SourceID r = Some a)"
proof
  assume srt: "is_sort_values srt"
  then show "distinct (busiest srt routes)" by (rule distinct_busiest)
  show "\<forall>a \<in> set (busiest srt routes). \<exists>r \<in> set routes. SourceID r = Some a"
    using set_busiest [OF srt, of routes] by (auto simp: source_ids_def)
qed

text \<open>
  The theorem at the table of two source ids, with the insertion sort.
\<close>

theorem busiest_distinct_sources_witness:
  "is_sort_values (sort_key :: (int source_count \<Rightarrow> nat) \<Rightarrow> _) \<and>
   distinct (busiest sort_key three_routes) \<and>
   2 \<in> set (busiest sort_key three_routes) \<and>
   (\<exists>r \<in> set three_routes. SourceID r = Some 2)"
proof -
  note inst = busiest_distinct_sources [OF sort_key_is_sort_values, of three_routes]
  have "2 \<in> set (busiest sort_key three_routes)"
    by code_simp
  with inst show ?thesis using sort_key_is_sort_values by blast
qed

lemma source_counts_no_source:
  "\<forall>r \<in> set routes. SourceID r = None \<Longrightarrow> source_counts routes = []"
  by (simp add: source_counts_def groupby_no_keys)

lemma route_counts_no_source:
  "\<forall>r \<in> set routes. SourceID r = None \<Longrightarrow> route_counts routes = []"
proof -
  assume "\<forall>r \<in> set routes. SourceID r = None"
  then have "\<forall>r \<in> set routes. pair_key r = None"
    by (simp add: pair_key_def)
  then show ?thesis by (simp add: route_counts_def groupby_no_keys)
qed

lemma busiest_no_source:
  "is_sort_values srt \<Longrightarrow> \<forall>r \<in> set routes. SourceID r = None \<Longrightarrow> busiest srt routes = []"
  by (simp add: busiest_def source_counts_no_source sort_values_Nil iloc_last_def)

lemma route_counts_present:
  "route_counts (filter (\<lambda>r. SourceID r \<noteq> None \<and> DestinationID r \<noteq> None) routes)
     = route_counts routes"
proof -
  have "filter (\<lambda>r. SourceID r \<noteq> None \<and> DestinationID r \<noteq> None) routes
          = filter (\<lambda>r. pair_key r \<noteq> None) routes"
    by (rule filter_cong) (auto simp: pair_key_def split: option.splits)
  then show ?thesis
    unfolding route_counts_def by (simp only: groupby_present)
qed

lemma busiest_present:
  "busiest srt (filter (\<lambda>r. SourceID r \<noteq> None) routes) = busiest srt routes"
  unfolding busiest_def source_counts_def by (simp only: groupby_present)

text \<open>
  Claim C6, as the code has it: on a route table, a frame with the three columns, the two
  statements raise no error whatever the rows are, and check nothing. On the empty route
  table, and on a malformed one where no row has a source id, the aggregation gives the
  empty route-count table and the selection gives the empty busiest list; rows that lack
  an id are left out as if they were not there. On a frame that lacks a column they ask
  for, the statements fail with the error of the data frame library.
\<close>

theorem no_validation:
  "is_sort_values srt \<Longrightarrow>
   (is_route_table df \<longrightarrow>
      route_counts_stmt df = Inr (route_counts (frame_rows df)) \<and>
      busiest_stmt srt df = Inr (busiest srt (frame_rows df))) \<and>
   (is_route_table df \<and> frame_rows df = [] \<longrightarrow>
      route_counts_stmt df = Inr [] \<and> busiest_stmt srt df = Inr []) \<and>
   (is_route_table df \<and> (\<forall>r \<in> set (frame_rows df). SourceID r = None) \<longrightarrow>
      route_counts_stmt df = Inr [] \<and> busiest_stmt srt df = Inr []) \<and>
   route_counts (filter (\<lambda>r. SourceID r \<noteq> None \<and> DestinationID r \<noteq> None) (frame_rows df))
     = route_counts (frame_rows df) \<and>
   busiest srt (filter (\<lambda>r. SourceID r \<noteq> None) (frame_rows df)) = busiest srt (frame_rows df) \<and>
   (\<not> is_route_table df \<longrightarrow> (\<exists>e. route_counts_stmt df = Inl e)) \<and>
   (\<not> has_column df ''SourceID'' \<or> \<not> has_column df ''Stops'' \<longrightarrow>
      (\<exists>e. busiest_stmt srt df = Inl e))"
proof (intro conjI impI)
  assume srt: "is_sort_values srt"
  show "route_counts_stmt df = Inr (route_counts (frame_rows df))" if "is_route_table df"
    using that by (simp add: route_counts_stmt_def is_route_table_def)
  show "busiest_stmt srt df = Inr (busiest srt (frame_rows df))" if "is_route_table df"
    using that by (simp add: busiest_stmt_def is_route_table_def)
  show "route_counts_stmt df = Inr []" if "is_route_table df \<and> frame_rows df = []"
    using that route_counts_no_source [of "[]"]
    by (simp add: route_counts_stmt_def is_route_table_def)
  show "busiest_stmt srt df = Inr []" if "is_route_table df \<and> frame_rows df = []"
    using that busiest_no_source [OF srt, of "[]"]
    by (simp add: busiest_stmt_def is_route_table_def)
  show "route_counts_stmt df = Inr []"
    if "is_route_table df \<and> (\<forall>r \<in> set (frame_rows df). SourceID r = None)"
    using that route_counts_no_source [of "frame_rows df"]
    by (simp add: route_counts_stmt_def is_route_table_def)
  show "busiest_stmt srt df = Inr []"
    if "is_route_table df \<and> (\<forall>r \<in> set (frame_rows df). SourceID r = None)"
    using that busiest_no_source [OF srt, of "frame_rows df"]
    by (simp add: busiest_stmt_def is_route_table_def)
  show "route_counts (filter (\<lambda>r. SourceID r \<noteq> None \<and> DestinationID r \<noteq> None) (frame_rows df))
          = route_counts (frame_rows df)"
    by (rule route_counts_present)
  show "busiest srt (filter (\<lambda>r. SourceID r \<noteq> None) (frame_rows df)) = busiest srt (frame_rows df)"
    by (rule busiest_present)
  show "\<exists>e. route_counts_stmt df = Inl e" if "\<not> is_route_table df"
    using that by (auto simp: route_counts_stmt_def is_route_table_def)
  show "\<exists>e. busiest_stmt srt df = Inl e"
    if "\<not> has_column df ''SourceID'' \<or> \<not> has_column df ''Stops''"
    using that by (auto simp: busiest_stmt_def)
qed

text \<open>
  The theorem with the insertion sort, at the empty route table, at a route table whose
  one row has no source id, and at the empty frame without the column \<^verbatim>\<open>Stops\<close>.
\<close>

theorem no_validation_witness:
  "is_sort_values (sort_key :: (int source_count \<Rightarrow> nat) \<Rightarrow> _) \<and>
   is_route_table \<lparr>frame_columns = [''SourceID'', ''DestinationID'', ''Stops''],
                   frame_rows = ([] :: int route list)\<rparr> \<and>
   route_counts_stmt \<lparr>frame_columns = [''SourceID'', ''DestinationID'', ''Stops''],
                      frame_rows = ([] :: int route list)\<rparr> = Inr [] \<and>
   busiest_stmt sort_key \<lparr>frame_columns = [''SourceID'', ''DestinationID'', ''Stops''],
                          frame_rows = ([] :: int route list)\<rparr> = Inr [] \<and>
   SourceID \<lparr>SourceID = None, DestinationID = Some (1::int), Stops = Some 0\<rparr> = None \<and>
   route_counts_stmt \<lparr>frame_columns = [''SourceID'', ''DestinationID'', ''Stops''],
      frame_rows = [\<lparr>SourceID = None, DestinationID = Some (1::int), Stops = Some 0\<rparr>]\<rparr> = Inr [] \<and>
   busiest_stmt sort_key \<lparr>frame_columns = [''SourceID'', ''DestinationID'', ''Stops''],
      frame_rows = [\<lparr>SourceID = None, DestinationID = Some (1::int), Stops = Some 0\<rparr>]\<rparr> = Inr [] \<and>
   \<not> is_route_table \<lparr>frame_columns = [''SourceID'', ''DestinationID''],
                     frame_rows = ([] :: int route list)\<rparr> \<and>
   \<not> has_column \<lparr>frame_columns = [''SourceID'', ''DestinationID''],
                 frame_rows = ([] :: int route list)\<rparr> ''Stops'' \<and>
   (\<exists>e. route_counts_stmt \<lparr>frame_columns = [''SourceID'', ''DestinationID''],
                           frame_rows = ([] :: int route list)\<rparr> = Inl e) \<and>
   (\<exists>e. busiest_stmt sort_key \<lparr>frame_columns = [''SourceID'', ''DestinationID''],
                               frame_rows = ([] :: int route list)\<rparr> = Inl e)"
proof -
  let ?cols = "[''SourceID'', ''DestinationID'', ''Stops'']"
  let ?empty = "\<lparr>frame_columns = ?cols, frame_rows = ([] :: int route list)\<rparr>"
  let ?bad = "\<lparr>frame_columns = ?cols,
      frame_rows = [\<lparr>SourceID = None, DestinationID = Some (1::int), Stops = Some 0\<rparr>]\<rparr>"
  let ?short = "\<lparr>frame_columns = [''SourceID'', ''DestinationID''],
                 frame_rows = ([] :: int route list)\<rparr>"
  have t1: "is_route_table ?empty" and t2: "is_route_table ?bad"
    and t3: "\<not> is_route_table ?short" and t4: "\<not> has_column ?short ''Stops''"
    by (simp_all add: is_route_table_def has_column_def)
  have e: "frame_rows ?empty = []" by simp
  have b: "\<forall>r \<in> set (frame_rows ?bad). SourceID r = None" by simp
  from no_validation [OF sort_key_is_sort_values, of ?empty] t1 e
  have r1: "route_counts_stmt ?empty = Inr [] \<and> busiest_stmt sort_key ?empty = Inr []"
    by blast
  from no_validation [OF sort_key_is_sort_values, of ?bad] t2 b
  have r2: "route_counts_stmt ?bad = Inr [] \<and> busiest_stmt sort_key ?bad = Inr []"
    by blast
  from no_validation [OF sort_key_is_sort_values, of ?short] t3 t4
  have r3: "(\<exists>e. route_counts_stmt ?short = Inl e) \<and> (\<exists>e. busiest_stmt sort_key ?short = Inl e)"
    by blast
  from r1 r2 r3 t1 t3 t4 sort_key_is_sort_values show ?thesis by simp
qed

text \<open>
  Claim C6 as the specification words it, with no error on malformed or empty input,
  fails on the empty frame that lacks the column \<^verbatim>\<open>Stops\<close>: the aggregation
  raises \<^verbatim>\<open>AttributeError\<close> and the selection raises \<^verbatim>\<open>KeyError\<close>, where the claim has
  them return the empty table and the empty list.
\<close>

theorem missing_column_fails:
  "route_counts_stmt \<lparr>frame_columns = [''SourceID'', ''DestinationID''],
                      frame_rows = ([] :: int route list)\<rparr> = Inl (AttributeError ''Stops'') \<and>
   busiest_stmt sort_key \<lparr>frame_columns = [''SourceID'', ''DestinationID''],
                          frame_rows = ([] :: int route list)\<rparr> = Inl (KeyError ''Stops'')"
  by (simp add: route_counts_stmt_def busiest_stmt_def has_column_def)

text \<open>
  Claim C7: on the route table [(A,B,1),(A,B,1),(A,C,1)], where B and C are two
  destinations, the route-count table has the two entries (A,B) with the count 2 and
  (A,C) with the count 1, and the count of the group of the source id A is 3.
\<close>

theorem example_counts:
  "B \<noteq> C \<Longrightarrow>
   set (route_counts [\<lparr>SourceID = Some A, DestinationID = Some B, Stops = Some 1\<rparr>,
                      \<lparr>SourceID = Some A, DestinationID = Some B, Stops = Some 1\<rparr>,
                      \<lparr>SourceID = Some A, DestinationID = Some C, Stops = Some 1\<rparr>])
     = {\<lparr>rc_SourceID = A, rc_DestinationID = B, rc_Stops = 2\<rparr>,
        \<lparr>rc_SourceID = A, rc_DestinationID = C, rc_Stops = 1\<rparr>} \<and>
   length (route_counts [\<lparr>SourceID = Some A, DestinationID = Some B, Stops = Some 1\<rparr>,
                         \<lparr>SourceID = Some A, DestinationID = Some B, Stops = Some 1\<rparr>,
                         \<lparr>SourceID = Some A, DestinationID = Some C, Stops = Some 1\<rparr>]) = 2 \<and>
   source_counts [\<lparr>SourceID = Some A, DestinationID = Some B, Stops = Some 1\<rparr>,
                  \<lparr>SourceID = Some A, DestinationID = Some B, Stops = Some 1\<rparr>,
                  \<lparr>SourceID = Some A, DestinationID = Some C, Stops = Some 1\<rparr>]
     = [\<lparr>sc_index = A, sc_DestinationID = 3, sc_Stops = 3\<rparr>]"
  by (auto simp: route_counts_def source_counts_def groupby_def pair_key_def count_col_def
        less_eq_prod_def)

text \<open>
  The theorem at the airports 1, 2 and 3.
\<close>

theorem example_counts_witness:
  "(2::int) \<noteq> 3 \<and>
   route_counts [\<lparr>SourceID = Some (1::int), DestinationID = Some 2, Stops = Some 1\<rparr>,
                 \<lparr>SourceID = Some 1, DestinationID = Some 2, Stops = Some 1\<rparr>,
                 \<lparr>SourceID = Some 1, DestinationID = Some 3, Stops = Some 1\<rparr>]
     = [\<lparr>rc_SourceID = 1, rc_DestinationID = 2, rc_Stops = 2\<rparr>,
        \<lparr>rc_SourceID = 1, rc_DestinationID = 3, rc_Stops = 1\<rparr>] \<and>
   source_counts [\<lparr>SourceID = Some (1::int), DestinationID = Some 2, Stops = Some 1\<rparr>,
                  \<lparr>SourceID = Some 1, DestinationID = Some 2, Stops = Some 1\<rparr>,
                  \<lparr>SourceID = Some 1, DestinationID = Some 3, Stops = Some 1\<rparr>]
     = [\<lparr>sc_index = 1, sc_DestinationID = 3, sc_Stops = 3\<rparr>]"
proof -
  have ne: "(2::int) \<noteq> 3" by simp
  have rc: "route_counts [\<lparr>SourceID = Some (1::int), DestinationID = Some 2, Stops = Some 1\<rparr>,
                 \<lparr>SourceID = Some 1, DestinationID = Some 2, Stops = Some 1\<rparr>,
                 \<lparr>SourceID = Some 1, DestinationID = Some 3, Stops = Some 1\<rparr>]
     = [\<lparr>rc_SourceID = 1, rc_DestinationID = 2, rc_Stops = 2\<rparr>,
        \<lparr>rc_SourceID = 1, rc_DestinationID = 3, rc_Stops = 1\<rparr>]"
    by (simp add: route_counts_def groupby_def pair_key_def count_col_def less_eq_prod_def)
  from example_counts [OF ne, of 1] rc ne show ?thesis by simp
qed

section \<open>The selection\<close>

text \<open>
  Claim C5: the selection in node mode yields a subset of the chord structure: its nodes
  are nodes of the structure whose airport id is in the list, and its edges are edges of
  the structure with both endpoints in the list. In edge mode the edges are those with
  either endpoint in the list.
\<close>

theorem select_nodes_subset:
  "set (nodes (select g ids mode_nodes)) \<subseteq> set (nodes g) \<and>
   (\<forall>n \<in> set (nodes (select g ids mode_nodes)). AirportID n \<in> set ids) \<and>
   set (edges (select g ids mode_nodes)) \<subseteq> set (edges g) \<and>
   (\<forall>e \<in> set (edges (select g ids mode_nodes)).
      rc_SourceID e \<in> set ids \<and> rc_DestinationID e \<in> set ids) \<and>
   set (edges (select g ids mode_edges)) \<subseteq> set (edges g) \<and>
   (\<forall>e \<in> set (edges (select g ids mode_edges)).
      rc_SourceID e \<in> set ids \<or> rc_DestinationID e \<in> set ids)"
  by (auto simp: select_def endpoints_selected_def)

text \<open>
  The theorem at a structure of three airports and two edges, with the list [1, 2].
\<close>

theorem select_nodes_subset_witness:
  "select \<lparr>edges = [\<lparr>rc_SourceID = 1::int, rc_DestinationID = 2, rc_Stops = 1\<rparr>,
                     \<lparr>rc_SourceID = 2, rc_DestinationID = 3, rc_Stops = 2\<rparr>],
            nodes = [\<lparr>AirportID = 1, City = ''Goroka''\<rparr>, \<lparr>AirportID = 2, City = ''Madang''\<rparr>,
                     \<lparr>AirportID = 3, City = ''Nadzab''\<rparr>]\<rparr> [1, 2] mode_nodes
     = \<lparr>edges = [\<lparr>rc_SourceID = 1, rc_DestinationID = 2, rc_Stops = 1\<rparr>],
        nodes = [\<lparr>AirportID = 1, City = ''Goroka''\<rparr>, \<lparr>AirportID = 2, City = ''Madang''\<rparr>]\<rparr> \<and>
   AirportID \<lparr>AirportID = 2::int, City = ''Madang''\<rparr> \<in> set [1, 2] \<and>
   rc_SourceID \<lparr>rc_SourceID = 1::int, rc_DestinationID = 2, rc_Stops = 1\<rparr> \<in> set [1, 2] \<and>
   rc_DestinationID \<lparr>rc_SourceID = 1::int, rc_DestinationID = 2, rc_Stops = 1\<rparr> \<in> set [1, 2]"
proof -
  let ?g = "\<lparr>edges = [\<lparr>rc_SourceID = 1::int, rc_DestinationID = 2, rc_Stops = 1\<rparr>,
                     \<lparr>rc_SourceID = 2, rc_DestinationID = 3, rc_Stops = 2\<rparr>],
            nodes = [\<lparr>AirportID = 1, City = ''Goroka''\<rparr>, \<lparr>AirportID = 2, City = ''Madang''\<rparr>,
                     \<lparr>AirportID = 3, City = ''Nadzab''\<rparr>]\<rparr>"
  let ?n = "\<lparr>AirportID = 2::int, City = ''Madang''\<rparr>"
  let ?e = "\<lparr>rc_SourceID = 1::int, rc_DestinationID = 2, rc_Stops = 1\<rparr>"
  have sel: "select ?g [1, 2] mode_nodes
     = \<lparr>edges = [?e], nodes = [\<lparr>AirportID = 1, City = ''Goroka''\<rparr>, ?n]\<rparr>"
    by (simp add: select_def endpoints_selected_def)
  have n: "?n \<in> set (nodes (select ?g [1, 2] mode_nodes))"
    and e: "?e \<in> set (edges (select ?g [1, 2] mode_nodes))"
    by (simp_all only: sel) simp_all
  from select_nodes_subset [of ?g "[1, 2]"] n have "AirportID ?n \<in> set [1, 2]"
    by blast
  moreover from select_nodes_subset [of ?g "[1, 2]"] e
  have "rc_SourceID ?e \<in> set [1, 2] \<and> rc_DestinationID ?e \<in> set [1, 2]"
    by blast
  ultimately show ?thesis using sel by blast
qed

end
